theory Spec2Isabelle
  imports Complex_Main
begin

section \<open>The document: a store of elements\<close>

text \<open>
  \<^verbatim>\<open>js/main.js\<close> works on the live document through references to elements, and two
  references may name the same element. The document is therefore a store: a list of
  elements in tree order, an element's index being its identity. Each element carries
  what the script reads or writes: the tag name, the parent, the class list (a token
  list), the attributes, the layout offsets and the inline box shadow.
\<close>

record element =
  localName :: string
  parentElement :: "nat option"
  classList :: "string list"
  attributes :: "string \<rightharpoonup> string"
  offsetTop :: int
  offsetHeight :: int
  boxShadow :: string

type_synonym dom = "element list"

datatype error = TypeError | SyntaxError

text \<open>
  A handler either runs to completion or throws; a throw keeps the mutations made
  before it, so both outcomes carry the state.
\<close>

datatype 'a outcome = Completed 'a | Threw error 'a

fun state_of :: "'a outcome \<Rightarrow> 'a" where
  "state_of (Completed s) = s"
| "state_of (Threw e s) = s"

text \<open>\<^verbatim>\<open>String(b)\<close>, the conversion \<^verbatim>\<open>setAttribute\<close> applies to a boolean argument.\<close>

definition String_bool :: "bool \<Rightarrow> string" where
  "String_bool b = (if b then ''true'' else ''false'')"

subsection \<open>Class lists and attributes\<close>

definition classList_contains :: "dom \<Rightarrow> nat \<Rightarrow> string \<Rightarrow> bool" where
  "classList_contains doc el c = (c \<in> set (classList (doc ! el)))"

definition classList_remove :: "dom \<Rightarrow> nat \<Rightarrow> string \<Rightarrow> dom" where
  "classList_remove doc el c =
     doc[el := (doc ! el)\<lparr>classList := removeAll c (classList (doc ! el))\<rparr>]"

definition classList_add :: "dom \<Rightarrow> nat \<Rightarrow> string \<Rightarrow> dom" where
  "classList_add doc el c =
     (if c \<in> set (classList (doc ! el)) then doc
      else doc[el := (doc ! el)\<lparr>classList := classList (doc ! el) @ [c]\<rparr>])"

definition classList_toggle :: "dom \<Rightarrow> nat \<Rightarrow> string \<Rightarrow> dom" where
  "classList_toggle doc el c =
     (if classList_contains doc el c then classList_remove doc el c
      else classList_add doc el c)"

definition getAttribute :: "dom \<Rightarrow> nat \<Rightarrow> string \<Rightarrow> string option" where
  "getAttribute doc el name = attributes (doc ! el) name"

definition setAttribute :: "dom \<Rightarrow> nat \<Rightarrow> string \<Rightarrow> string \<Rightarrow> dom" where
  "setAttribute doc el name v =
     doc[el := (doc ! el)\<lparr>attributes := (attributes (doc ! el))(name \<mapsto> v)\<rparr>]"

subsection \<open>The tree: ancestors and containment\<close>

definition parentOf :: "dom \<Rightarrow> nat \<Rightarrow> nat option" where
  "parentOf doc el = (if el < length doc then parentElement (doc ! el) else None)"

text \<open>
  The chain of ancestors, nearest first. In a tree of \<open>n\<close> elements no chain is longer
  than \<open>n\<close>, which bounds the walk.
\<close>

fun ancestors_upto :: "nat \<Rightarrow> dom \<Rightarrow> nat \<Rightarrow> nat list" where
  "ancestors_upto 0 doc el = []"
| "ancestors_upto (Suc n) doc el =
     (case parentOf doc el of
        None \<Rightarrow> []
      | Some p \<Rightarrow> p # ancestors_upto n doc p)"

definition ancestors :: "dom \<Rightarrow> nat \<Rightarrow> nat list" where
  "ancestors doc el = ancestors_upto (length doc) doc el"

text \<open>\<^verbatim>\<open>a.contains(b)\<close>: \<open>b\<close> is \<open>a\<close> or a descendant of \<open>a\<close>.\<close>

definition contains :: "dom \<Rightarrow> nat \<Rightarrow> nat \<Rightarrow> bool" where
  "contains doc a b = (b = a \<or> a \<in> set (ancestors doc b))"

subsection \<open>The selectors the script uses\<close>

datatype selector =
    ByClass string
  | ByTag string
  | Descendant selector selector
  | HrefPrefix string string

text \<open>
  \<open>ByClass c\<close> is \<^verbatim>\<open>.c\<close>, \<open>ByTag t\<close> is \<^verbatim>\<open>t\<close>, \<open>Descendant s1 s2\<close> is \<^verbatim>\<open>s1 s2\<close>,
  and \<open>HrefPrefix t p\<close> is \<^verbatim>\<open>t[href^="p"]\<close>.
\<close>

fun matches :: "dom \<Rightarrow> selector \<Rightarrow> nat \<Rightarrow> bool" where
  "matches doc (ByClass c) el = (c \<in> set (classList (doc ! el)))"
| "matches doc (ByTag t) el = (localName (doc ! el) = t)"
| "matches doc (Descendant s1 s2) el =
     (matches doc s2 el \<and> list_ex (matches doc s1) (ancestors doc el))"
| "matches doc (HrefPrefix t p) el =
     (localName (doc ! el) = t \<and>
      (case attributes (doc ! el) ''href'' of
         None \<Rightarrow> False
       | Some h \<Rightarrow> take (length p) h = p))"

definition querySelectorAll :: "dom \<Rightarrow> selector \<Rightarrow> nat list" where
  "querySelectorAll doc s = filter (matches doc s) [0..<length doc]"

definition first_of :: "nat list \<Rightarrow> nat option" where
  "first_of xs = (case xs of [] \<Rightarrow> None | x # _ \<Rightarrow> Some x)"

definition querySelector :: "dom \<Rightarrow> selector \<Rightarrow> nat option" where
  "querySelector doc s = first_of (querySelectorAll doc s)"

text \<open>\<^verbatim>\<open>el.querySelector(s)\<close>: the first match among the descendants of \<open>el\<close>.\<close>

definition querySelector_in :: "dom \<Rightarrow> nat \<Rightarrow> selector \<Rightarrow> nat option" where
  "querySelector_in doc el s =
     first_of (filter (\<lambda>x. el \<in> set (ancestors doc x)) (querySelectorAll doc s))"

section \<open>Mobile menu\<close>

text \<open>The references \<^verbatim>\<open>initMobileMenu\<close> captures for its listeners.\<close>

record menu_refs =
  menuToggle :: nat
  nav :: nat
  navLinks :: "nat list"

definition initMobileMenu :: "dom \<Rightarrow> menu_refs option" where
  "initMobileMenu doc =
     (case querySelector doc (ByClass ''mobile-menu-toggle'') of
        None \<Rightarrow> None
      | Some t \<Rightarrow>
          (case querySelector doc (ByTag ''nav'') of
             None \<Rightarrow> None
           | Some n \<Rightarrow>
               Some \<lparr>menuToggle = t, nav = n,
                     navLinks = querySelectorAll doc (Descendant (ByTag ''nav'') (ByTag ''a''))\<rparr>))"

text \<open>The click listener of the toggle (\<^verbatim>\<open>this\<close> is the toggle).\<close>

definition toggleClick :: "menu_refs \<Rightarrow> dom \<Rightarrow> dom" where
  "toggleClick refs doc =
     (let d1 = classList_toggle doc (menuToggle refs) ''active'';
          d2 = classList_toggle d1 (nav refs) ''active'';
          isExpanded = classList_contains d2 (nav refs) ''active''
      in setAttribute d2 (menuToggle refs) ''aria-expanded'' (String_bool isExpanded))"

text \<open>The three statements every closing branch runs.\<close>

definition closeMenu :: "menu_refs \<Rightarrow> dom \<Rightarrow> dom" where
  "closeMenu refs doc =
     (let d1 = classList_remove doc (menuToggle refs) ''active'';
          d2 = classList_remove d1 (nav refs) ''active''
      in setAttribute d2 (menuToggle refs) ''aria-expanded'' ''false'')"

definition navLinkClick :: "menu_refs \<Rightarrow> dom \<Rightarrow> dom" where
  "navLinkClick refs doc = closeMenu refs doc"

text \<open>The document's click listener; \<open>target\<close> is \<^verbatim>\<open>event.target\<close>.\<close>

definition documentClick :: "menu_refs \<Rightarrow> nat \<Rightarrow> dom \<Rightarrow> dom" where
  "documentClick refs target doc =
     (let isClickInsideNav = contains doc (nav refs) target;
          isClickOnToggle = contains doc (menuToggle refs) target
      in if \<not> isClickInsideNav \<and> \<not> isClickOnToggle
            \<and> classList_contains doc (nav refs) ''active''
         then closeMenu refs doc else doc)"

text \<open>The document's keydown listener; \<open>k\<close> is \<^verbatim>\<open>event.key\<close>.\<close>

definition documentKeydown :: "menu_refs \<Rightarrow> string \<Rightarrow> dom \<Rightarrow> dom" where
  "documentKeydown refs k doc =
     (if k = ''Escape'' \<and> classList_contains doc (nav refs) ''active''
      then closeMenu refs doc else doc)"

text \<open>
  The four kinds of listener \<^verbatim>\<open>initMobileMenu\<close> registers, each named by what runs
  it: the toggle's click listener, the click listener of a navigation link, the
  document's click listener (with \<^verbatim>\<open>event.target\<close>) and the document's keydown listener
  (with \<^verbatim>\<open>event.key\<close>).
\<close>

datatype menu_event =
    ToggleClicked
  | NavLinkClicked
  | DocumentClicked nat
  | KeyPressed string

fun menuHandle :: "menu_refs \<Rightarrow> menu_event \<Rightarrow> dom \<Rightarrow> dom" where
  "menuHandle refs ToggleClicked doc = toggleClick refs doc"
| "menuHandle refs NavLinkClicked doc = navLinkClick refs doc"
| "menuHandle refs (DocumentClicked target) doc = documentClick refs target doc"
| "menuHandle refs (KeyPressed k) doc = documentKeydown refs k doc"

text \<open>Listeners run one after the other, each to completion.\<close>

definition menuRun :: "menu_refs \<Rightarrow> menu_event list \<Rightarrow> dom \<Rightarrow> dom" where
  "menuRun refs evs doc = foldl (\<lambda>d ev. menuHandle refs ev d) doc evs"

text \<open>
  A click travels from its target up through the ancestors to the document, and no
  listener stops it. On each element of the path the listeners registered on it run in
  the order of their registration: the toggle's listener first, then the listener of a
  navigation link; the elements done, the document's listener runs. These are the
  listeners of the mobile menu; those of the other features are registered on FAQ
  questions and anchor links and write to FAQ items, questions and link targets.
\<close>

definition propagationPath :: "dom \<Rightarrow> nat \<Rightarrow> nat list" where
  "propagationPath doc target = target # ancestors doc target"

definition listenersOn :: "menu_refs \<Rightarrow> nat \<Rightarrow> menu_event list" where
  "listenersOn refs el =
     (if el = menuToggle refs then [ToggleClicked] else []) @
     (if el \<in> set (navLinks refs) then [NavLinkClicked] else [])"

definition clickEvents :: "menu_refs \<Rightarrow> dom \<Rightarrow> nat \<Rightarrow> menu_event list" where
  "clickEvents refs doc target =
     concat (map (listenersOn refs) (propagationPath doc target)) @ [DocumentClicked target]"

definition dispatchClick :: "menu_refs \<Rightarrow> nat \<Rightarrow> dom \<Rightarrow> dom" where
  "dispatchClick refs target doc = menuRun refs (clickEvents refs doc target) doc"

definition dispatchClicks :: "menu_refs \<Rightarrow> nat list \<Rightarrow> dom \<Rightarrow> dom" where
  "dispatchClicks refs targets doc = foldl (\<lambda>d t. dispatchClick refs t d) doc targets"


text \<open>\<^verbatim>\<open>NavigationState.open\<close> is the marker on the navigation container.\<close>

definition menuOpen :: "menu_refs \<Rightarrow> dom \<Rightarrow> bool" where
  "menuOpen refs doc = classList_contains doc (nav refs) ''active''"

definition toggleMarked :: "menu_refs \<Rightarrow> dom \<Rightarrow> bool" where
  "toggleMarked refs doc = classList_contains doc (menuToggle refs) ''active''"

definition ariaExpanded :: "menu_refs \<Rightarrow> dom \<Rightarrow> string option" where
  "ariaExpanded refs doc = getAttribute doc (menuToggle refs) ''aria-expanded''"

text \<open>
  The listeners are installed once both elements are found; they keep working on them
  as long as the references stay inside the document.
\<close>

definition installed :: "menu_refs \<Rightarrow> dom \<Rightarrow> bool" where
  "installed refs doc = (menuToggle refs < length doc \<and> nav refs < length doc)"

text \<open>The closed menu: no marker on either element, and the attribute says so.\<close>

definition closed :: "menu_refs \<Rightarrow> dom \<Rightarrow> bool" where
  "closed refs doc =
     (\<not> menuOpen refs doc \<and> \<not> toggleMarked refs doc \<and> ariaExpanded refs doc = Some ''false'')"

definition markersEqual :: "menu_refs \<Rightarrow> dom \<Rightarrow> bool" where
  "markersEqual refs doc = (toggleMarked refs doc = menuOpen refs doc)"

definition ariaMatches :: "menu_refs \<Rightarrow> dom \<Rightarrow> bool" where
  "ariaMatches refs doc = (ariaExpanded refs doc = Some (String_bool (menuOpen refs doc)))"

text \<open>
  The listeners that write \<^verbatim>\<open>aria-expanded\<close> on every run; the two document
  listeners write it only in their closing branch.
\<close>

fun writesAria :: "menu_event \<Rightarrow> bool" where
  "writesAria ToggleClicked = True"
| "writesAria NavLinkClicked = True"
| "writesAria (DocumentClicked t) = False"
| "writesAria (KeyPressed k) = False"

section \<open>FAQ accordion\<close>

text \<open>\<^verbatim>\<open>initFAQ\<close> attaches its two listeners to every question element it finds.\<close>

definition initFAQ :: "dom \<Rightarrow> nat list" where
  "initFAQ doc = querySelectorAll doc (ByClass ''faq-question'')"

text \<open>
  The \<^verbatim>\<open>forEach\<close> over the item containers. The question of an item is looked up and
  used at once: where the lookup finds nothing, \<^verbatim>\<open>setAttribute\<close> is called on
  \<^verbatim>\<open>null\<close> and the loop ends in a TypeError, after the marker of that item has
  been removed.
\<close>

fun closeOthers :: "nat \<Rightarrow> nat list \<Rightarrow> dom \<Rightarrow> dom outcome" where
  "closeOthers faqItem [] doc = Completed doc"
| "closeOthers faqItem (item # items) doc =
     (if item \<noteq> faqItem then
        (let d1 = classList_remove doc item ''active'' in
         case querySelector_in d1 item (ByClass ''faq-question'') of
           None \<Rightarrow> Threw TypeError d1
         | Some q \<Rightarrow> closeOthers faqItem items (setAttribute d1 q ''aria-expanded'' ''false''))
      else closeOthers faqItem items doc)"

text \<open>
  The click listener of a question (\<^verbatim>\<open>this\<close>). A question without a parent element
  has \<^verbatim>\<open>parentElement\<close> \<^verbatim>\<open>null\<close>, and reading its class list throws.
\<close>

definition faqClick :: "nat \<Rightarrow> dom \<Rightarrow> dom outcome" where
  "faqClick this doc =
     (case parentOf doc this of
        None \<Rightarrow> Threw TypeError doc
      | Some faqItem \<Rightarrow>
          (let isActive = classList_contains doc faqItem ''active'' in
           case closeOthers faqItem (querySelectorAll doc (ByClass ''faq-item'')) doc of
             Threw e d \<Rightarrow> Threw e d
           | Completed d \<Rightarrow>
               Completed (setAttribute (classList_toggle d faqItem ''active'') this
                            ''aria-expanded'' (String_bool (\<not> isActive)))))"

text \<open>
  A click on a question, by pointer or by \<^verbatim>\<open>this.click()\<close>, runs the click listener;
  an exception thrown by a listener is reported and what the listener did before it
  stays done.
\<close>

definition pointerClick :: "nat \<Rightarrow> dom \<Rightarrow> dom" where
  "pointerClick this doc = state_of (faqClick this doc)"

definition click_method :: "nat \<Rightarrow> dom \<Rightarrow> dom" where
  "click_method this doc = state_of (faqClick this doc)"

text \<open>
  The keydown listener of a question. The first component of the pair is the event's
  \<^verbatim>\<open>defaultPrevented\<close> flag, which \<^verbatim>\<open>preventDefault\<close> sets.
\<close>

definition faqKeydown :: "nat \<Rightarrow> string \<Rightarrow> bool \<times> dom \<Rightarrow> bool \<times> dom" where
  "faqKeydown this k ev =
     (if k = ''Enter'' \<or> k = '' '' then (True, click_method this (snd ev)) else ev)"

definition expanded :: "dom \<Rightarrow> nat \<Rightarrow> bool" where
  "expanded doc item = classList_contains doc item ''active''"

definition faqItems :: "dom \<Rightarrow> nat list" where
  "faqItems doc = querySelectorAll doc (ByClass ''faq-item'')"

definition questionOf :: "dom \<Rightarrow> nat \<Rightarrow> nat option" where
  "questionOf doc item = querySelector_in doc item (ByClass ''faq-question'')"

fun thrown :: "'a outcome \<Rightarrow> error option" where
  "thrown (Completed s) = None"
| "thrown (Threw e s) = Some e"

text \<open>
  The listeners change the marker \<^verbatim>\<open>active\<close> and attributes only: the tree and every
  other class stay as they are, and with them what the selectors find.
\<close>

definition sameShape :: "dom \<Rightarrow> dom \<Rightarrow> bool" where
  "sameShape d doc =
     (length d = length doc \<and> parentOf d = parentOf doc \<and>
      (\<forall>x c. c \<noteq> ''active'' \<longrightarrow> classList_contains d x c = classList_contains doc x c))"

text \<open>What the loop over the items leaves behind when it completes.\<close>

definition othersClosed :: "nat \<Rightarrow> nat list \<Rightarrow> dom \<Rightarrow> dom \<Rightarrow> bool" where
  "othersClosed faqItem items doc mid =
     (sameShape mid doc
      \<and> (\<forall>x. expanded mid x = (expanded doc x \<and> (x \<in> set items \<longrightarrow> x = faqItem)))
      \<and> (\<forall>x. getAttribute mid x ''aria-expanded'' =
              (if \<exists>item \<in> set items. item \<noteq> faqItem \<and> questionOf doc item = Some x
               then Some ''false'' else getAttribute doc x ''aria-expanded'')))"

section \<open>The page: viewport, history, focus\<close>

datatype call = ScrollToTop | InitMobileMenu | InitFAQ | InitSmoothScroll | InitHeaderScroll

text \<open>
  What the remaining features read and write besides the document: the viewport's
  position and the destination of a smooth scroll under way, the history object (either
  of \<^verbatim>\<open>pushState\<close> and \<^verbatim>\<open>scrollRestoration\<close> may be missing from it), the focused
  element, the variable \<^verbatim>\<open>lastScrollTop\<close> of \<^verbatim>\<open>initHeaderScroll\<close>, what each initializer
  registered, and the log of the calls \<^verbatim>\<open>init\<close> has made.
\<close>

record page =
  document :: dom
  readyState :: string
  pageXOffset :: real
  pageYOffset :: real
  documentElement_scrollTop :: real
  smoothScrollTo :: "int option"
  history_pushState :: bool
  history_entries :: "string list"
  history_scrollRestoration :: "string option"
  activeElement :: "nat option"
  lastScrollTop :: real
  onDOMContentLoaded :: bool
  menuListeners :: "menu_refs option"
  faqListeners :: "nat list"
  anchorListeners :: "nat list"
  scrollListener :: "nat option"
  calls :: "call list"

subsection \<open>Smooth scrolling\<close>

definition initSmoothScroll :: "dom \<Rightarrow> nat list" where
  "initSmoothScroll doc = querySelectorAll doc (HrefPrefix ''a'' ''#'')"

text \<open>
  The handler passes the link's \<^verbatim>\<open>href\<close> to \<^verbatim>\<open>document.querySelector\<close>, which reads
  it as a selector. Read so, \<^verbatim>\<open>#\<close> followed by an identifier of letters, digits,
  \<^verbatim>\<open>-\<close> and \<^verbatim>\<open>_\<close> that starts with a letter or \<^verbatim>\<open>_\<close> selects by \<^verbatim>\<open>id\<close>; the same
  characters after a leading digit are no identifier, and the call throws a
  SyntaxError. Every other string is left to \<open>host\<close>, the selector engine of the
  browser, which is a parameter here. The document is in standards mode, where an
  \<^verbatim>\<open>id\<close> matches letter for letter, and the first match in tree order is returned.
\<close>

definition ident_start :: "char \<Rightarrow> bool" where
  "ident_start c = (c \<in> set ''abcdefghijklmnopqrstuvwxyzABCDEFGHIJKLMNOPQRSTUVWXYZ_'')"

definition digit :: "char \<Rightarrow> bool" where
  "digit c = (c \<in> set ''0123456789'')"

definition ident_char :: "char \<Rightarrow> bool" where
  "ident_char c = (ident_start c \<or> digit c \<or> c = CHR ''-'')"

definition getElementById :: "dom \<Rightarrow> string \<Rightarrow> nat option" where
  "getElementById doc name =
     first_of (filter (\<lambda>x. attributes (doc ! x) ''id'' = Some name) [0..<length doc])"

type_synonym selector_engine = "dom \<Rightarrow> string \<Rightarrow> error + nat option"

definition document_querySelector :: "selector_engine \<Rightarrow> dom \<Rightarrow> string \<Rightarrow> error + nat option" where
  "document_querySelector host doc sel =
     (case sel of
        [] \<Rightarrow> host doc sel
      | c # rest \<Rightarrow>
          if c = CHR ''#'' \<and> rest \<noteq> [] \<and> list_all ident_char rest then
            (if ident_start (hd rest) then Inr (getElementById doc rest)
             else if digit (hd rest) then Inl SyntaxError
             else host doc sel)
          else host doc sel)"

text \<open>
  The click listener of an anchor link (\<^verbatim>\<open>this\<close>). The first component of the pair is
  the event's \<^verbatim>\<open>defaultPrevented\<close> flag. A missing \<^verbatim>\<open>href\<close> reads as \<^verbatim>\<open>null\<close>, which
  \<^verbatim>\<open>querySelector\<close> takes as the string \<^verbatim>\<open>null\<close>. \<^verbatim>\<open>window.scrollTo\<close> with
  \<^verbatim>\<open>behavior: 'smooth'\<close> only starts the scroll: the destination is recorded and
  the position is left to the browser.
\<close>

definition anchorClick :: "selector_engine \<Rightarrow> nat \<Rightarrow> bool \<times> page \<Rightarrow> (bool \<times> page) outcome" where
  "anchorClick host this ev =
     (let st = snd ev;
          doc = document st;
          targetId = (case getAttribute doc this ''href'' of None \<Rightarrow> ''null'' | Some h \<Rightarrow> h)
      in if targetId = ''#'' \<or> targetId = '''' then Completed ev
         else
           (case document_querySelector host doc targetId of
              Inl e \<Rightarrow> Threw e ev
            | Inr None \<Rightarrow> Completed ev
            | Inr (Some targetElement) \<Rightarrow>
                (let header = querySelector doc (ByTag ''header'');
                     headerHeight = (case header of None \<Rightarrow> 0 | Some h \<Rightarrow> offsetHeight (doc ! h));
                     targetPosition = offsetTop (doc ! targetElement) - headerHeight - 20;
                     st1 = st\<lparr>smoothScrollTo := Some targetPosition\<rparr>;
                     st2 = (if history_pushState st1
                            then st1\<lparr>history_entries := history_entries st1 @ [targetId]\<rparr>
                            else st1);
                     st3 = st2\<lparr>document := setAttribute (document st2) targetElement ''tabindex'' ''-1''\<rparr>;
                     st4 = st3\<lparr>activeElement := Some targetElement\<rparr>
                 in Completed (True, st4))))"

subsection \<open>Scroll reset\<close>

definition scrollToTop :: "page \<Rightarrow> page" where
  "scrollToTop st =
     (let st1 = (case history_scrollRestoration st of
                   None \<Rightarrow> st
                 | Some r \<Rightarrow> st\<lparr>history_scrollRestoration := Some ''manual''\<rparr>)
      in st1\<lparr>pageXOffset := 0, pageYOffset := 0, documentElement_scrollTop := 0,
              calls := calls st1 @ [ScrollToTop]\<rparr>)"

subsection \<open>Header shadow\<close>

definition initHeaderScroll :: "dom \<Rightarrow> nat option" where
  "initHeaderScroll doc = querySelector doc (ByTag ''header'')"






subsection \<open>Startup\<close>

text \<open>The five calls, in the order both branches of \<^verbatim>\<open>init\<close> make them.\<close>

definition runInitMobileMenu :: "page \<Rightarrow> page" where
  "runInitMobileMenu st =
     st\<lparr>menuListeners := initMobileMenu (document st), calls := calls st @ [InitMobileMenu]\<rparr>"

definition runInitFAQ :: "page \<Rightarrow> page" where
  "runInitFAQ st = st\<lparr>faqListeners := initFAQ (document st), calls := calls st @ [InitFAQ]\<rparr>"

definition runInitSmoothScroll :: "page \<Rightarrow> page" where
  "runInitSmoothScroll st =
     st\<lparr>anchorListeners := initSmoothScroll (document st), calls := calls st @ [InitSmoothScroll]\<rparr>"

definition runInitHeaderScroll :: "page \<Rightarrow> page" where
  "runInitHeaderScroll st =
     (let st1 = st\<lparr>calls := calls st @ [InitHeaderScroll]\<rparr>
      in case initHeaderScroll (document st1) of
           None \<Rightarrow> st1
         | Some header \<Rightarrow> st1\<lparr>scrollListener := Some header, lastScrollTop := 0\<rparr>)"

definition startAll :: "page \<Rightarrow> page" where
  "startAll st =
     runInitHeaderScroll (runInitSmoothScroll (runInitFAQ (runInitMobileMenu (scrollToTop st))))"

definition init :: "page \<Rightarrow> page" where
  "init st =
     (if readyState st = ''loading'' then st\<lparr>onDOMContentLoaded := True\<rparr>
      else startAll st)"

text \<open>
  The browser fires \<^verbatim>\<open>DOMContentLoaded\<close> once, when the document has been parsed; the
  listener, if \<^verbatim>\<open>init\<close> registered it, runs then.
\<close>

definition fireDOMContentLoaded :: "page \<Rightarrow> page" where
  "fireDOMContentLoaded st =
     (let st1 = st\<lparr>readyState := ''interactive''\<rparr>
      in if onDOMContentLoaded st1 then startAll st1 else st1)"

text \<open>
  A page load as the script sees it: \<^verbatim>\<open>init\<close> runs when the script is evaluated, and
  where the document was still loading the event follows.
\<close>

definition pageLoad :: "page \<Rightarrow> page" where
  "pageLoad st =
     (let st1 = init st
      in if readyState st = ''loading'' then fireDOMContentLoaded st1 else st1)"

section \<open>Example pages\<close>

definition elem :: "string \<Rightarrow> nat option \<Rightarrow> string list \<Rightarrow> (string \<times> string) list \<Rightarrow> element" where
  "elem t p cs as =
     \<lparr>localName = t, parentElement = p, classList = cs, attributes = map_of as,
      offsetTop = 0, offsetHeight = 0, boxShadow = ''''\<rparr>"

text \<open>A page with the menu button, the navigation and one link in it.\<close>

definition menu_page :: dom where
  "menu_page =
     [elem ''body'' None [] [],
      elem ''button'' (Some 0) [''mobile-menu-toggle''] [],
      elem ''nav'' (Some 0) [] [],
      elem ''a'' (Some 2) [] [(''href'', ''#services'')],
      elem ''main'' (Some 0) [] []]"

definition menu_page_refs :: menu_refs where
  "menu_page_refs = \<lparr>menuToggle = 1, nav = 2, navLinks = [3]\<rparr>"









text \<open>Three FAQ items, each with its question; the second is open.\<close>

definition faq_page :: dom where
  "faq_page =
     [elem ''body'' None [] [],
      elem ''div'' (Some 0) [''faq-item''] [],
      elem ''button'' (Some 1) [''faq-question''] [(''aria-expanded'', ''false'')],
      elem ''div'' (Some 0) [''faq-item'', ''active''] [],
      elem ''button'' (Some 3) [''faq-question''] [(''aria-expanded'', ''true'')],
      elem ''div'' (Some 0) [''faq-item''] [],
      elem ''button'' (Some 5) [''faq-question''] [(''aria-expanded'', ''false'')]]"

text \<open>
  Two FAQ items; the heading of the second, open one does not carry the class
  \<^verbatim>\<open>faq-question\<close>.
\<close>

definition faq_page_bare_item :: dom where
  "faq_page_bare_item =
     [elem ''body'' None [] [],
      elem ''div'' (Some 0) [''faq-item''] [],
      elem ''button'' (Some 1) [''faq-question''] [(''aria-expanded'', ''false'')],
      elem ''div'' (Some 0) [''faq-item'', ''active''] [],
      elem ''h3'' (Some 3) [] []]"

text \<open>One FAQ item whose question sits inside a heading.\<close>

definition faq_page_heading :: dom where
  "faq_page_heading =
     [elem ''body'' None [] [],
      elem ''div'' (Some 0) [''faq-item''] [],
      elem ''h3'' (Some 1) [] [],
      elem ''button'' (Some 2) [''faq-question''] [(''aria-expanded'', ''false'')]]"

text \<open>
  A page with a header 80 units high, a link to \<^verbatim>\<open>#section2\<close> and its section at
  offset 600, a link to \<^verbatim>\<open>#missing-id\<close>, a link to \<^verbatim>\<open>#\<close>, and a link to
  \<^verbatim>\<open>#2024-prices\<close> with the heading of that \<^verbatim>\<open>id\<close> at offset 900.
\<close>

definition scroll_doc :: dom where
  "scroll_doc =
     [elem ''body'' None [] [],
      (elem ''header'' (Some 0) [] [])\<lparr>offsetHeight := 80\<rparr>,
      elem ''a'' (Some 0) [] [(''href'', ''#section2'')],
      (elem ''section'' (Some 0) [] [(''id'', ''section2'')])\<lparr>offsetTop := 600\<rparr>,
      elem ''a'' (Some 0) [] [(''href'', ''#missing-id'')],
      elem ''a'' (Some 0) [] [(''href'', ''#'')],
      elem ''a'' (Some 0) [] [(''href'', ''#2024-prices'')],
      (elem ''h2'' (Some 0) [] [(''id'', ''2024-prices'')])\<lparr>offsetTop := 900\<rparr>]"

text \<open>The page as the script finds it when it is evaluated after loading.\<close>

definition fresh_page :: "dom \<Rightarrow> page" where
  "fresh_page doc =
     \<lparr>document = doc, readyState = ''complete'', pageXOffset = 0, pageYOffset = 0,
      documentElement_scrollTop = 0, smoothScrollTo = None, history_pushState = True,
      history_entries = [], history_scrollRestoration = Some ''auto'', activeElement = None,
      lastScrollTop = 0, onDOMContentLoaded = False, menuListeners = None, faqListeners = [],
      anchorListeners = [], scrollListener = None, calls = []\<rparr>"


text \<open>
  A page with a link to \<^verbatim>\<open>#intro.overview\<close>, no element of that \<^verbatim>\<open>id\<close>, and a
  section of \<^verbatim>\<open>id\<close> \<^verbatim>\<open>intro\<close> and class \<^verbatim>\<open>overview\<close> at offset 400.
\<close>

definition dotted_doc :: dom where
  "dotted_doc =
     [elem ''body'' None [] [],
      elem ''a'' (Some 0) [] [(''href'', ''#intro.overview'')],
      (elem ''section'' (Some 0) [''overview''] [(''id'', ''intro'')])\<lparr>offsetTop := 400\<rparr>]"

text \<open>
  A selector engine that reads \<^verbatim>\<open>#name.class\<close>, two plain identifiers, as the browser
  does: the first element with that \<^verbatim>\<open>id\<close> and that class. It reads nothing else.
\<close>

definition plain_ident :: "string \<Rightarrow> bool" where
  "plain_ident s = (s \<noteq> [] \<and> list_all ident_char s \<and> ident_start (hd s))"

definition id_class_engine :: selector_engine where
  "id_class_engine doc sel =
     (case sel of
        [] \<Rightarrow> Inl SyntaxError
      | c # rest \<Rightarrow>
          (let name = takeWhile (\<lambda>x. x \<noteq> CHR ''.'') rest;
               cls = drop (Suc (length name)) rest
           in if c = CHR ''#'' \<and> plain_ident name \<and> plain_ident cls then
                Inr (first_of (filter (\<lambda>x. attributes (doc ! x) ''id'' = Some name
                                            \<and> cls \<in> set (classList (doc ! x)))
                                [0..<length doc]))
              else Inl SyntaxError))"
section \<open>Basic facts about the store\<close>

lemma length_classList_remove [simp]: "length (classList_remove doc el c) = length doc"
  by (simp add: classList_remove_def)

lemma length_classList_add [simp]: "length (classList_add doc el c) = length doc"
  by (simp add: classList_add_def)

lemma length_classList_toggle [simp]: "length (classList_toggle doc el c) = length doc"
  by (simp add: classList_toggle_def)

lemma length_setAttribute [simp]: "length (setAttribute doc el name v) = length doc"
  by (simp add: setAttribute_def)

lemma contains_classList_remove:
  "el < length doc \<Longrightarrow>
   classList_contains (classList_remove doc el c) x c' =
     (if x = el then c' \<noteq> c \<and> classList_contains doc x c' else classList_contains doc x c')"
  by (auto simp: classList_contains_def classList_remove_def)

lemma contains_classList_add:
  "el < length doc \<Longrightarrow>
   classList_contains (classList_add doc el c) x c' =
     (if x = el then c' = c \<or> classList_contains doc x c' else classList_contains doc x c')"
  by (auto simp: classList_contains_def classList_add_def)

lemma contains_classList_toggle:
  "el < length doc \<Longrightarrow>
   classList_contains (classList_toggle doc el c) x c' =
     (if x = el \<and> c' = c then \<not> classList_contains doc x c' else classList_contains doc x c')"
  by (auto simp: classList_toggle_def contains_classList_remove contains_classList_add)

lemma contains_setAttribute [simp]:
  "classList_contains (setAttribute doc el name v) x c = classList_contains doc x c"
  by (cases "el < length doc"; cases "x = el") (simp_all add: classList_contains_def setAttribute_def list_update_beyond)

lemma getAttribute_setAttribute:
  "el < length doc \<Longrightarrow>
   getAttribute (setAttribute doc el name v) x name' =
     (if x = el \<and> name' = name then Some v else getAttribute doc x name')"
  by (cases "x = el") (simp_all add: getAttribute_def setAttribute_def)

lemma getAttribute_classList_remove [simp]:
  "getAttribute (classList_remove doc el c) x name = getAttribute doc x name"
  by (cases "el < length doc"; cases "x = el") (simp_all add: getAttribute_def classList_remove_def list_update_beyond)

lemma getAttribute_classList_add [simp]:
  "getAttribute (classList_add doc el c) x name = getAttribute doc x name"
  by (cases "el < length doc"; cases "x = el") (simp_all add: getAttribute_def classList_add_def list_update_beyond)

lemma getAttribute_classList_toggle [simp]:
  "getAttribute (classList_toggle doc el c) x name = getAttribute doc x name"
  by (simp add: classList_toggle_def)

lemma parentOf_classList_remove [simp]:
  "parentOf (classList_remove doc el c) = parentOf doc"
proof
  fix x show "parentOf (classList_remove doc el c) x = parentOf doc x"
    by (cases "x = el") (simp_all add: parentOf_def classList_remove_def)
qed

lemma parentOf_classList_add [simp]:
  "parentOf (classList_add doc el c) = parentOf doc"
proof
  fix x show "parentOf (classList_add doc el c) x = parentOf doc x"
    by (cases "x = el") (simp_all add: parentOf_def classList_add_def)
qed

lemma parentOf_classList_toggle [simp]:
  "parentOf (classList_toggle doc el c) = parentOf doc"
  by (simp add: classList_toggle_def)

lemma parentOf_setAttribute [simp]:
  "parentOf (setAttribute doc el name v) = parentOf doc"
proof
  fix x show "parentOf (setAttribute doc el name v) x = parentOf doc x"
    by (cases "x = el") (simp_all add: parentOf_def setAttribute_def)
qed

lemma ancestors_upto_cong:
  assumes "parentOf d = parentOf doc"
  shows "ancestors_upto n d el = ancestors_upto n doc el"
proof (induction n arbitrary: el)
  case 0
  show ?case by simp
next
  case (Suc n)
  show ?case
    by (cases "parentOf doc el") (simp_all add: assms Suc.IH)
qed

lemma ancestors_cong:
  assumes "parentOf d = parentOf doc" and "length d = length doc"
  shows "ancestors d = ancestors doc"
proof
  fix el
  show "ancestors d el = ancestors doc el"
    unfolding ancestors_def assms(2) by (rule ancestors_upto_cong [OF assms(1)])
qed


section \<open>Mobile menu: the listeners\<close>

lemma querySelectorAll_bound: "x \<in> set (querySelectorAll doc s) \<Longrightarrow> x < length doc"
  by (simp add: querySelectorAll_def)

lemma first_of_mem: "first_of xs = Some x \<Longrightarrow> x \<in> set xs"
  by (cases xs) (simp_all add: first_of_def)


lemma querySelector_in_bound: "querySelector_in doc el s = Some x \<Longrightarrow> x < length doc"
proof -
  assume "querySelector_in doc el s = Some x"
  then have "x \<in> set (filter (\<lambda>x. el \<in> set (ancestors doc x)) (querySelectorAll doc s))"
    unfolding querySelector_in_def by (rule first_of_mem)
  then show ?thesis by (auto simp: querySelectorAll_bound)
qed


lemma length_toggleClick [simp]: "length (toggleClick refs doc) = length doc"
  by (simp add: toggleClick_def Let_def)

lemma parentOf_toggleClick [simp]: "parentOf (toggleClick refs doc) = parentOf doc"
  by (simp add: toggleClick_def Let_def)

lemma length_closeMenu [simp]: "length (closeMenu refs doc) = length doc"
  by (simp add: closeMenu_def Let_def)

lemma parentOf_closeMenu [simp]: "parentOf (closeMenu refs doc) = parentOf doc"
  by (simp add: closeMenu_def Let_def)

lemma closeMenu_closed: "installed refs doc \<Longrightarrow> closed refs (closeMenu refs doc)"
  by (simp add: closed_def installed_def closeMenu_def Let_def menuOpen_def toggleMarked_def
      ariaExpanded_def contains_classList_remove getAttribute_setAttribute)

lemma menuOpen_toggleClick:
  "installed refs doc \<Longrightarrow>
   menuOpen refs (toggleClick refs doc) =
     (if menuToggle refs = nav refs then menuOpen refs doc else \<not> menuOpen refs doc)"
  by (simp add: installed_def toggleClick_def Let_def menuOpen_def contains_classList_toggle)

lemma toggleMarked_toggleClick:
  "installed refs doc \<Longrightarrow>
   toggleMarked refs (toggleClick refs doc) =
     (if menuToggle refs = nav refs then toggleMarked refs doc else \<not> toggleMarked refs doc)"
  by (simp add: installed_def toggleClick_def Let_def toggleMarked_def contains_classList_toggle)

lemma ariaExpanded_toggleClick:
  "installed refs doc \<Longrightarrow>
   ariaExpanded refs (toggleClick refs doc) =
     Some (String_bool (menuOpen refs (toggleClick refs doc)))"
  by (simp add: installed_def toggleClick_def Let_def menuOpen_def ariaExpanded_def
      getAttribute_setAttribute)

lemma installed_cong: "length d = length doc \<Longrightarrow> installed refs d = installed refs doc"
  by (simp add: installed_def)



lemma length_menuHandle [simp]: "length (menuHandle refs ev doc) = length doc"
  by (cases ev) (simp_all add: navLinkClick_def documentClick_def documentKeydown_def Let_def)

lemma length_menuRun [simp]: "length (menuRun refs evs doc) = length doc"
  by (induction evs rule: rev_induct) (simp_all add: menuRun_def)

lemma parentOf_menuHandle [simp]: "parentOf (menuHandle refs ev doc) = parentOf doc"
  by (cases ev) (simp_all add: navLinkClick_def documentClick_def documentKeydown_def Let_def)

lemma parentOf_menuRun [simp]: "parentOf (menuRun refs evs doc) = parentOf doc"
  by (induction evs rule: rev_induct) (simp_all add: menuRun_def)

lemma menuRun_snoc: "menuRun refs (evs @ [ev]) doc = menuHandle refs ev (menuRun refs evs doc)"
  by (simp add: menuRun_def)




lemma length_dispatchClick [simp]: "length (dispatchClick refs target doc) = length doc"
  by (simp add: dispatchClick_def)

lemma parentOf_dispatchClick [simp]: "parentOf (dispatchClick refs target doc) = parentOf doc"
  by (simp add: dispatchClick_def)

lemma length_dispatchClicks [simp]: "length (dispatchClicks refs targets doc) = length doc"
  by (induction targets rule: rev_induct) (simp_all add: dispatchClicks_def)

lemma parentOf_dispatchClicks [simp]: "parentOf (dispatchClicks refs targets doc) = parentOf doc"
  by (induction targets rule: rev_induct) (simp_all add: dispatchClicks_def)


subsection \<open>The path of a click\<close>











subsection \<open>Clicks on the toggle\<close>



subsection \<open>Closing\<close>









subsection \<open>The markers stay equal\<close>

lemma closed_markers: "closed refs doc \<Longrightarrow> markersEqual refs doc \<and> ariaMatches refs doc"
  by (simp add: closed_def markersEqual_def ariaMatches_def String_bool_def)

lemma documentClick_cases:
  "documentClick refs target doc = doc \<or> documentClick refs target doc = closeMenu refs doc"
  by (simp add: documentClick_def Let_def)

lemma documentKeydown_cases:
  "documentKeydown refs k doc = doc \<or> documentKeydown refs k doc = closeMenu refs doc"
  by (simp add: documentKeydown_def)

lemma toggleClick_markers:
  assumes "installed refs doc" "markersEqual refs doc"
  shows "markersEqual refs (toggleClick refs doc)" "ariaMatches refs (toggleClick refs doc)"
  using assms
  by (simp_all add: markersEqual_def ariaMatches_def menuOpen_toggleClick
      toggleMarked_toggleClick ariaExpanded_toggleClick)

lemma menuHandle_markers:
  assumes inst: "installed refs doc" and eq: "markersEqual refs doc"
  shows "markersEqual refs (menuHandle refs ev doc)"
    and "ariaMatches refs doc \<or> writesAria ev \<Longrightarrow> ariaMatches refs (menuHandle refs ev doc)"
proof -
  note c = closed_markers [OF closeMenu_closed [OF inst]]
  note t = toggleClick_markers [OF inst eq]
  show "markersEqual refs (menuHandle refs ev doc)"
  proof (cases ev)
    case ToggleClicked
    then show ?thesis using t by simp
  next
    case NavLinkClicked
    then show ?thesis using c by (simp add: navLinkClick_def)
  next
    case (DocumentClicked x)
    then show ?thesis using documentClick_cases [of refs x doc] eq c by auto
  next
    case (KeyPressed k)
    then show ?thesis using documentKeydown_cases [of refs k doc] eq c by auto
  qed
  show "ariaMatches refs (menuHandle refs ev doc)" if "ariaMatches refs doc \<or> writesAria ev"
  proof (cases ev)
    case ToggleClicked
    then show ?thesis using t by simp
  next
    case NavLinkClicked
    then show ?thesis using c by (simp add: navLinkClick_def)
  next
    case (DocumentClicked x)
    then show ?thesis using documentClick_cases [of refs x doc] that c by auto
  next
    case (KeyPressed k)
    then show ?thesis using documentKeydown_cases [of refs k doc] that c by auto
  qed
qed

lemma menuRun_markers:
  assumes inst: "installed refs doc" and eq: "markersEqual refs doc"
  shows "markersEqual refs (menuRun refs evs doc)
       \<and> (ariaMatches refs doc \<or> list_ex writesAria evs \<longrightarrow> ariaMatches refs (menuRun refs evs doc))"
proof (induction evs rule: rev_induct)
  case Nil
  show ?case using eq by (simp add: menuRun_def)
next
  case (snoc ev evs)
  let ?d = "menuRun refs evs doc"
  have inst': "installed refs ?d"
    using inst by (simp add: installed_def)
  have eq': "markersEqual refs ?d"
    using snoc by simp
  show ?case
    unfolding menuRun_snoc
    using menuHandle_markers [OF inst' eq', of ev] snoc
    by auto
qed

section \<open>FAQ accordion: the click listener\<close>

lemma sameShape_refl: "sameShape doc doc"
  by (simp add: sameShape_def)

lemma sameShape_trans: "sameShape a b \<Longrightarrow> sameShape b c \<Longrightarrow> sameShape a c"
  by (simp add: sameShape_def)

lemma classList_remove_other:
  "c' \<noteq> c \<Longrightarrow> classList_contains (classList_remove doc el c) x c' = classList_contains doc x c'"
  by (cases "el < length doc"; cases "x = el")
    (simp_all add: classList_contains_def classList_remove_def list_update_beyond)

lemma classList_add_other:
  "c' \<noteq> c \<Longrightarrow> classList_contains (classList_add doc el c) x c' = classList_contains doc x c'"
  by (cases "el < length doc"; cases "x = el")
    (simp_all add: classList_contains_def classList_add_def list_update_beyond)

lemma classList_toggle_other:
  "c' \<noteq> c \<Longrightarrow> classList_contains (classList_toggle doc el c) x c' = classList_contains doc x c'"
  by (simp add: classList_toggle_def classList_remove_other classList_add_other)

lemma sameShape_remove: "sameShape (classList_remove doc el ''active'') doc"
  by (simp add: sameShape_def classList_remove_other)

lemma sameShape_toggle: "sameShape (classList_toggle doc el ''active'') doc"
  by (simp add: sameShape_def classList_toggle_other)

lemma sameShape_setAttribute: "sameShape (setAttribute doc el name v) doc"
  by (simp add: sameShape_def)

lemma sameShape_matches:
  assumes "sameShape d doc" and "c \<noteq> ''active''"
  shows "matches d (ByClass c) = matches doc (ByClass c)"
proof
  fix x
  show "matches d (ByClass c) x = matches doc (ByClass c) x"
    using assms by (simp add: sameShape_def classList_contains_def)
qed

lemma sameShape_querySelectorAll:
  assumes "sameShape d doc" and "c \<noteq> ''active''"
  shows "querySelectorAll d (ByClass c) = querySelectorAll doc (ByClass c)"
proof -
  have "length d = length doc" using assms(1) by (simp add: sameShape_def)
  then show ?thesis
    by (simp add: querySelectorAll_def sameShape_matches [OF assms])
qed

lemma sameShape_ancestors: "sameShape d doc \<Longrightarrow> ancestors d = ancestors doc"
  by (rule ancestors_cong) (simp_all add: sameShape_def)

lemma sameShape_querySelector_in:
  assumes "sameShape d doc" and "c \<noteq> ''active''"
  shows "querySelector_in d el (ByClass c) = querySelector_in doc el (ByClass c)"
  by (simp add: querySelector_in_def sameShape_querySelectorAll [OF assms]
      sameShape_ancestors [OF assms(1)])

lemma sameShape_questionOf: "sameShape d doc \<Longrightarrow> questionOf d = questionOf doc"
  by (intro ext) (simp add: questionOf_def sameShape_querySelector_in)

lemma sameShape_faqItems: "sameShape d doc \<Longrightarrow> faqItems d = faqItems doc"
  by (simp add: faqItems_def sameShape_querySelectorAll)

lemma questionOf_bound: "questionOf doc item = Some q \<Longrightarrow> q < length doc"
  unfolding questionOf_def by (rule querySelector_in_bound)

lemma closeOthers_completes:
  assumes "\<forall>item \<in> set items. item < length doc"
    and "\<forall>item \<in> set items. item \<noteq> faqItem \<longrightarrow> questionOf doc item \<noteq> None"
  shows "\<exists>mid. closeOthers faqItem items doc = Completed mid \<and> othersClosed faqItem items doc mid"
  using assms
proof (induction items arbitrary: doc)
  case Nil
  show ?case by (simp add: othersClosed_def sameShape_refl)
next
  case (Cons item items)
  show ?case
  proof (cases "item = faqItem")
    case True
    from Cons.prems have "\<forall>i \<in> set items. i < length doc"
      and "\<forall>i \<in> set items. i \<noteq> faqItem \<longrightarrow> questionOf doc i \<noteq> None" by simp_all
    from Cons.IH [OF this] obtain mid where
      mid: "closeOthers faqItem items doc = Completed mid" "othersClosed faqItem items doc mid"
      by blast
    have "othersClosed faqItem (item # items) doc mid"
      using mid(2) True unfolding othersClosed_def by auto
    then show ?thesis using mid(1) True by simp
  next
    case False
    let ?d1 = "classList_remove doc item ''active''"
    have item: "item < length doc" using Cons.prems by simp
    from Cons.prems False obtain q where q: "questionOf doc item = Some q"
      by auto
    have s1: "sameShape ?d1 doc" by (rule sameShape_remove)
    have q1: "querySelector_in ?d1 item (ByClass ''faq-question'') = Some q"
      using q by (simp add: questionOf_def sameShape_querySelector_in [OF s1])
    let ?d2 = "setAttribute ?d1 q ''aria-expanded'' ''false''"
    have qb: "q < length doc" using q by (rule questionOf_bound)
    have s2: "sameShape ?d2 doc"
      by (rule sameShape_trans [OF sameShape_setAttribute s1])
    have len: "length ?d2 = length doc" by simp
    have qo: "questionOf ?d2 = questionOf doc" by (rule sameShape_questionOf [OF s2])
    from Cons.prems have "\<forall>i \<in> set items. i < length ?d2"
      and "\<forall>i \<in> set items. i \<noteq> faqItem \<longrightarrow> questionOf ?d2 i \<noteq> None"
      by (simp_all add: qo)
    from Cons.IH [OF this] obtain mid where
      mid: "closeOthers faqItem items ?d2 = Completed mid" "othersClosed faqItem items ?d2 mid"
      by blast
    have run: "closeOthers faqItem (item # items) doc = Completed mid"
      using False q1 mid(1) by (simp add: Let_def)
    have e2: "expanded ?d2 x = (expanded doc x \<and> x \<noteq> item)" for x
      using item by (auto simp: expanded_def contains_classList_remove)
    have a2: "getAttribute ?d2 x ''aria-expanded'' =
        (if x = q then Some ''false'' else getAttribute doc x ''aria-expanded'')" for x
      using qb by (simp add: getAttribute_setAttribute)
    have m_s: "sameShape mid doc"
      using mid(2) s2 unfolding othersClosed_def by (blast intro: sameShape_trans)
    have m_e: "expanded mid x = ((expanded doc x \<and> x \<noteq> item) \<and> (x \<in> set items \<longrightarrow> x = faqItem))"
      for x
    proof -
      have "expanded mid x = (expanded ?d2 x \<and> (x \<in> set items \<longrightarrow> x = faqItem))"
        using mid(2) unfolding othersClosed_def by blast
      then show ?thesis unfolding e2 .
    qed
    have m_a: "getAttribute mid x ''aria-expanded'' =
        (if \<exists>i \<in> set items. i \<noteq> faqItem \<and> questionOf doc i = Some x then Some ''false''
         else if x = q then Some ''false'' else getAttribute doc x ''aria-expanded'')" for x
    proof -
      have "getAttribute mid x ''aria-expanded'' =
          (if \<exists>i \<in> set items. i \<noteq> faqItem \<and> questionOf ?d2 i = Some x then Some ''false''
           else getAttribute ?d2 x ''aria-expanded'')"
        using mid(2) unfolding othersClosed_def by blast
      then show ?thesis unfolding qo a2 .
    qed
    have "othersClosed faqItem (item # items) doc mid"
      unfolding othersClosed_def
    proof (intro conjI allI)
      show "sameShape mid doc" by (rule m_s)
      show "expanded mid x = (expanded doc x \<and> (x \<in> set (item # items) \<longrightarrow> x = faqItem))" for x
        unfolding m_e using False by auto
      show "getAttribute mid x ''aria-expanded'' =
          (if \<exists>i \<in> set (item # items). i \<noteq> faqItem \<and> questionOf doc i = Some x
           then Some ''false'' else getAttribute doc x ''aria-expanded'')" for x
        unfolding m_a using False q by auto
    qed
    with run show ?thesis by blast
  qed
qed

lemma filter_at_most_one:
  assumes "distinct xs" and "\<forall>x \<in> set xs. P x \<longrightarrow> x = a"
  shows "length (filter P xs) \<le> 1"
proof -
  have "distinct (filter P xs)" using assms(1) by simp
  then have "length (filter P xs) = card (set (filter P xs))"
    by (rule distinct_card [symmetric])
  also have "\<dots> \<le> card {a}"
    by (rule card_mono) (use assms(2) in auto)
  finally show ?thesis by simp
qed

lemma distinct_querySelectorAll: "distinct (querySelectorAll doc s)"
  by (simp add: querySelectorAll_def)

lemma faqClick_completes:
  assumes el: "this < length doc"
    and parent: "parentOf doc this = Some faqItem"
    and item: "faqItem < length doc"
    and questions: "\<forall>item \<in> set (faqItems doc). item \<noteq> faqItem \<longrightarrow> questionOf doc item \<noteq> None"
  shows "\<exists>mid. closeOthers faqItem (faqItems doc) doc = Completed mid
           \<and> othersClosed faqItem (faqItems doc) doc mid
           \<and> faqClick this doc =
               Completed (setAttribute (classList_toggle mid faqItem ''active'') this
                            ''aria-expanded'' (String_bool (\<not> expanded doc faqItem)))"
proof -
  have "\<forall>i \<in> set (faqItems doc). i < length doc"
    by (simp add: faqItems_def querySelectorAll_bound)
  from closeOthers_completes [OF this questions] obtain mid where
    mid: "closeOthers faqItem (faqItems doc) doc = Completed mid"
      "othersClosed faqItem (faqItems doc) doc mid"
    by blast
  have "faqClick this doc =
      Completed (setAttribute (classList_toggle mid faqItem ''active'') this
                   ''aria-expanded'' (String_bool (\<not> expanded doc faqItem)))"
    using mid(1) parent by (simp add: faqClick_def faqItems_def expanded_def)
  with mid show ?thesis by blast
qed

lemma faqClick_end_state:
  assumes el: "this < length doc"
    and item: "faqItem < length doc"
    and mid: "othersClosed faqItem (faqItems doc) doc mid"
    and fin: "fin = setAttribute (classList_toggle mid faqItem ''active'') this
                      ''aria-expanded'' (String_bool (\<not> expanded doc faqItem))"
  shows "expanded fin x = (if x = faqItem then \<not> expanded doc faqItem
                           else expanded doc x \<and> x \<notin> set (faqItems doc))"
    and "getAttribute fin x ''aria-expanded'' =
           (if x = this then Some (String_bool (\<not> expanded doc faqItem))
            else getAttribute mid x ''aria-expanded'')"
    and "faqItems fin = faqItems doc"
proof -
  have shape: "sameShape mid doc" using mid by (simp add: othersClosed_def)
  then have len: "length mid = length doc" by (simp add: sameShape_def)
  have e: "expanded mid y = (expanded doc y \<and> (y \<in> set (faqItems doc) \<longrightarrow> y = faqItem))" for y
    using mid unfolding othersClosed_def by blast
  show "expanded fin x = (if x = faqItem then \<not> expanded doc faqItem
                           else expanded doc x \<and> x \<notin> set (faqItems doc))"
    unfolding fin expanded_def contains_setAttribute
    using item e [of x] e [of faqItem]
    by (simp add: contains_classList_toggle len expanded_def)
  show "getAttribute fin x ''aria-expanded'' =
           (if x = this then Some (String_bool (\<not> expanded doc faqItem))
            else getAttribute mid x ''aria-expanded'')"
    unfolding fin using el by (simp add: getAttribute_setAttribute len)
  have "sameShape fin doc"
    unfolding fin
    by (blast intro: sameShape_trans sameShape_setAttribute sameShape_toggle shape)
  then show "faqItems fin = faqItems doc" by (rule sameShape_faqItems)
qed

section \<open>Smooth scrolling, header shadow and startup: the handlers\<close>

lemma document_querySelector_id:
  assumes "name \<noteq> []" and "list_all ident_char name" and "ident_start (hd name)"
  shows "document_querySelector host doc (CHR ''#'' # name) = Inr (getElementById doc name)"
  using assms by (simp add: document_querySelector_def)

lemma document_querySelector_digit:
  assumes "name \<noteq> []" and "list_all ident_char name" and "digit (hd name)"
  shows "document_querySelector host doc (CHR ''#'' # name) = Inl SyntaxError"
proof -
  have "\<not> ident_start (hd name)"
    using assms(3) by (auto simp: ident_start_def digit_def)
  then show ?thesis using assms by (simp add: document_querySelector_def)
qed


lemma anchor_click_throw_keeps_state:
  assumes "getAttribute (document st) this ''href'' = Some targetId"
    and "targetId \<noteq> ''#''" "targetId \<noteq> ''''"
    and "document_querySelector host (document st) targetId = Inl e"
  shows "anchorClick host this (prevented, st) = Threw e (prevented, st)"
  using assms by (simp add: anchorClick_def Let_def)

lemma anchor_click_digit_id_throws:
  "getAttribute scroll_doc 6 ''href'' = Some ''#2024-prices''
   \<and> getElementById scroll_doc ''2024-prices'' = Some 7
   \<and> initSmoothScroll scroll_doc = [2, 4, 5, 6]
   \<and> thrown (anchorClick host 6 (False, fresh_page scroll_doc)) = Some SyntaxError
   \<and> \<not> fst (state_of (anchorClick host 6 (False, fresh_page scroll_doc)))
   \<and> smoothScrollTo (snd (state_of (anchorClick host 6 (False, fresh_page scroll_doc)))) = None"
proof -
  have h: "getAttribute scroll_doc 6 ''href'' = Some ''#2024-prices''"
    "getElementById scroll_doc ''2024-prices'' = Some 7"
    "initSmoothScroll scroll_doc = [2, 4, 5, 6]"
    by code_simp+
  have d: "document_querySelector host scroll_doc ''#2024-prices'' = Inl SyntaxError"
    by (rule document_querySelector_digit [of "''2024-prices''", simplified])
      (simp_all add: ident_char_def ident_start_def digit_def)
  have "anchorClick host 6 (False, fresh_page scroll_doc) =
      Threw SyntaxError (False, fresh_page scroll_doc)"
    using h(1) d by (simp add: anchorClick_def Let_def fresh_page_def)
  then show ?thesis using h by (simp add: fresh_page_def)
qed

lemma anchor_click_returns_early:
  assumes href: "getAttribute (document st) this ''href'' = Some targetId"
    and none: "targetId = ''#'' \<or> targetId = ''''
               \<or> document_querySelector host (document st) targetId = Inr None"
  shows "anchorClick host this (prevented, st) = Completed (prevented, st)"
  using assms by (auto simp: anchorClick_def Let_def)

lemma anchor_click_no_such_id:
  assumes href: "getAttribute (document st) this ''href'' = Some (CHR ''#'' # name)"
    and name: "name \<noteq> []" "list_all ident_char name" "ident_start (hd name) \<or> digit (hd name)"
    and none: "getElementById (document st) name = None"
  shows "state_of (anchorClick host this (prevented, st)) = (prevented, st)"
proof (cases "ident_start (hd name)")
  case True
  have "document_querySelector host (document st) (CHR ''#'' # name) = Inr None"
    using document_querySelector_id [OF name(1,2) True] none by simp
  then show ?thesis
    using anchor_click_returns_early [OF href] by simp
next
  case False
  with name(3) have "digit (hd name)" by simp
  then have thrown: "document_querySelector host (document st) (CHR ''#'' # name) = Inl SyntaxError"
    by (rule document_querySelector_digit [OF name(1,2)])
  have "anchorClick host this (prevented, st) = Threw SyntaxError (prevented, st)"
    by (rule anchor_click_throw_keeps_state [OF href _ _ thrown]) (use name(1) in simp_all)
  then show ?thesis by simp
qed



lemma calls_startAll:
  "calls (startAll st) =
     calls st @ [ScrollToTop, InitMobileMenu, InitFAQ, InitSmoothScroll, InitHeaderScroll]"
  by (simp add: startAll_def runInitHeaderScroll_def runInitSmoothScroll_def runInitFAQ_def
      runInitMobileMenu_def scrollToTop_def Let_def split: option.split)

lemma scrollToTop_effect:
  "pageXOffset (scrollToTop st) = 0 \<and> pageYOffset (scrollToTop st) = 0
   \<and> history_scrollRestoration (scrollToTop st) =
       (case history_scrollRestoration st of None \<Rightarrow> None | Some r \<Rightarrow> Some ''manual'')"
  by (simp add: scrollToTop_def Let_def split: option.split)

lemma startAll_effect:
  "pageXOffset (startAll st) = 0 \<and> pageYOffset (startAll st) = 0
   \<and> history_scrollRestoration (startAll st) =
       (case history_scrollRestoration st of None \<Rightarrow> None | Some r \<Rightarrow> Some ''manual'')"
  by (simp add: startAll_def runInitHeaderScroll_def runInitSmoothScroll_def runInitFAQ_def
      runInitMobileMenu_def scrollToTop_def Let_def split: option.split)

section \<open>Claims about the mobile menu\<close>







text \<open>
  Claim C10, as amended. If the marker on the toggle and the marker on the navigation
  container are equal at startup, they are equal again after every listener of the
  mobile menu has run (the toggle's, a navigation link's, the document's click listener
  and its keydown listener, in any order).
  \<^verbatim>\<open>aria-expanded\<close> on the toggle is the string form of that shared state after every
  run that contains a toggle click or a navigation-link click, and after every run
  whatever if it was so at startup. A click elsewhere or a key press that finds the menu
  closed writes nothing, so before the first toggle or link click the attribute is what
  the markup gave it.
\<close>

theorem menu_markers_invariant:
  assumes "installed refs doc" and "markersEqual refs doc"
  shows "markersEqual refs (menuRun refs evs doc)
       \<and> (ariaMatches refs doc \<or> list_ex writesAria evs \<longrightarrow>
            ariaMatches refs (menuRun refs evs doc))"
  by (rule menuRun_markers [OF assms])

theorem menu_markers_invariant_witness:
  "installed menu_page_refs menu_page \<and> markersEqual menu_page_refs menu_page
   \<and> list_ex writesAria [KeyPressed ''Escape'', ToggleClicked, DocumentClicked 1, DocumentClicked 4]
   \<and> markersEqual menu_page_refs
        (menuRun menu_page_refs [KeyPressed ''Escape'', ToggleClicked, DocumentClicked 1, DocumentClicked 4] menu_page)
   \<and> ariaMatches menu_page_refs
        (menuRun menu_page_refs [KeyPressed ''Escape'', ToggleClicked, DocumentClicked 1, DocumentClicked 4] menu_page)"
proof -
  have h1: "installed menu_page_refs menu_page" by code_simp
  have h2: "markersEqual menu_page_refs menu_page" by code_simp
  have h3: "list_ex writesAria [KeyPressed ''Escape'', ToggleClicked, DocumentClicked 1, DocumentClicked 4]"
    by simp
  from menu_markers_invariant [OF h1 h2, of "[KeyPressed ''Escape'', ToggleClicked, DocumentClicked 1, DocumentClicked 4]"]
    h1 h2 h3
  show ?thesis by blast
qed

text \<open>
  Claim C10 as stated fails on a page whose toggle has no \<^verbatim>\<open>aria-expanded\<close> in the
  markup: both markers are absent at startup, the Escape key is pressed, the listener
  completes, and the attribute is still missing instead of being \<^verbatim>\<open>false\<close>.
\<close>

theorem escape_leaves_aria_unset:
  "initMobileMenu menu_page = Some menu_page_refs
   \<and> \<not> toggleMarked menu_page_refs menu_page \<and> \<not> menuOpen menu_page_refs menu_page
   \<and> \<not> menuOpen menu_page_refs (menuHandle menu_page_refs (KeyPressed ''Escape'') menu_page)
   \<and> ariaExpanded menu_page_refs (menuHandle menu_page_refs (KeyPressed ''Escape'') menu_page)
        \<noteq> Some ''false''"
  by code_simp

section \<open>Claims about the FAQ accordion\<close>

text \<open>
  Claim C1, as amended. Take a click on a question whose parent element is its item
  container, on a page where every other item container has a question. The listener
  first removes the marker from every other item and sets \<^verbatim>\<open>aria-expanded\<close> of that
  item's question to \<^verbatim>\<open>false\<close>, leaving the clicked item as it was; then it flips the
  marker of the clicked item and sets \<^verbatim>\<open>aria-expanded\<close> of the clicked question to
  the string form of the new state. So after the click at most one item is expanded:
  the clicked one if it was not expanded before, none if it was.
\<close>

theorem faq_click_single_open:
  assumes el: "this < length doc"
    and parent: "parentOf doc this = Some faqItem"
    and item: "faqItem \<in> set (faqItems doc)"
    and questions: "\<forall>item \<in> set (faqItems doc). item \<noteq> faqItem \<longrightarrow> questionOf doc item \<noteq> None"
  shows "\<exists>mid fin.
      closeOthers faqItem (faqItems doc) doc = Completed mid
    \<and> (\<forall>item \<in> set (faqItems doc). item \<noteq> faqItem \<longrightarrow>
          \<not> expanded mid item \<and>
          (\<exists>q. questionOf doc item = Some q \<and> getAttribute mid q ''aria-expanded'' = Some ''false''))
    \<and> expanded mid faqItem = expanded doc faqItem
    \<and> faqClick this doc = Completed fin
    \<and> fin = setAttribute (classList_toggle mid faqItem ''active'') this
               ''aria-expanded'' (String_bool (\<not> expanded doc faqItem))
    \<and> expanded fin faqItem = (\<not> expanded doc faqItem)
    \<and> getAttribute fin this ''aria-expanded'' = Some (String_bool (\<not> expanded doc faqItem))
    \<and> faqItems fin = faqItems doc
    \<and> (\<forall>item \<in> set (faqItems fin). expanded fin item \<longrightarrow> item = faqItem \<and> \<not> expanded doc faqItem)
    \<and> length (filter (expanded fin) (faqItems fin)) \<le> 1"
proof -
  have bound: "faqItem < length doc"
    using item by (simp add: faqItems_def querySelectorAll_bound)
  from faqClick_completes [OF el parent bound questions] obtain mid where
    run: "closeOthers faqItem (faqItems doc) doc = Completed mid"
    and mid: "othersClosed faqItem (faqItems doc) doc mid"
    and click: "faqClick this doc =
               Completed (setAttribute (classList_toggle mid faqItem ''active'') this
                            ''aria-expanded'' (String_bool (\<not> expanded doc faqItem)))"
    by blast
  define fin where "fin = setAttribute (classList_toggle mid faqItem ''active'') this
                      ''aria-expanded'' (String_bool (\<not> expanded doc faqItem))"
  note fin = faqClick_end_state [OF el bound mid fin_def]
  have e: "expanded mid y = (expanded doc y \<and> (y \<in> set (faqItems doc) \<longrightarrow> y = faqItem))" for y
    using mid unfolding othersClosed_def by blast
  have a: "getAttribute mid y ''aria-expanded'' =
      (if \<exists>i \<in> set (faqItems doc). i \<noteq> faqItem \<and> questionOf doc i = Some y
       then Some ''false'' else getAttribute doc y ''aria-expanded'')" for y
    using mid unfolding othersClosed_def by blast
  have others: "\<forall>i \<in> set (faqItems doc). i \<noteq> faqItem \<longrightarrow>
          \<not> expanded mid i \<and>
          (\<exists>q. questionOf doc i = Some q \<and> getAttribute mid q ''aria-expanded'' = Some ''false'')"
  proof (intro ballI impI conjI)
    fix i assume i: "i \<in> set (faqItems doc)" "i \<noteq> faqItem"
    show "\<not> expanded mid i" using i by (simp add: e)
    from questions i obtain q where q: "questionOf doc i = Some q" by auto
    have "getAttribute mid q ''aria-expanded'' = Some ''false''"
      unfolding a using i q by auto
    with q show "\<exists>q. questionOf doc i = Some q \<and> getAttribute mid q ''aria-expanded'' = Some ''false''"
      by blast
  qed
  have only: "\<forall>i \<in> set (faqItems fin). expanded fin i \<longrightarrow> i = faqItem \<and> \<not> expanded doc faqItem"
    unfolding fin(3) by (auto simp: fin(1) split: if_splits)
  have one: "length (filter (expanded fin) (faqItems fin)) \<le> 1"
    by (rule filter_at_most_one [where a = faqItem])
      (use only in \<open>auto simp: faqItems_def distinct_querySelectorAll\<close>)
  have flip: "expanded fin faqItem = (\<not> expanded doc faqItem)"
    by (simp add: fin(1))
  have aria: "getAttribute fin this ''aria-expanded'' = Some (String_bool (\<not> expanded doc faqItem))"
    by (simp add: fin(2))
  have kept: "expanded mid faqItem = expanded doc faqItem"
    by (simp add: e)
  have click': "faqClick this doc = Completed fin"
    unfolding fin_def by (rule click)
  show ?thesis
    apply (rule exI [of _ mid])
    apply (rule exI [of _ fin])
    apply (intro conjI)
    apply (rule run)
    apply (rule others)
    apply (rule kept)
    apply (rule click')
    apply (rule fin_def)
    apply (rule flip)
    apply (rule aria)
    apply (rule fin(3))
    apply (rule only)
    apply (rule one)
    done
qed

theorem faq_click_single_open_witness:
  "2 < length faq_page \<and> parentOf faq_page 2 = Some 1
   \<and> 4 < length faq_page \<and> parentOf faq_page 4 = Some 3
   \<and> faqItems faq_page = [1, 3, 5]
   \<and> questionOf faq_page 1 = Some 2 \<and> questionOf faq_page 3 = Some 4
   \<and> questionOf faq_page 5 = Some 6
   \<and> expanded faq_page 3 \<and> \<not> expanded faq_page 1
   \<and> (\<exists>fin. faqClick 2 faq_page = Completed fin
         \<and> expanded fin 1 \<and> \<not> expanded fin 3 \<and> \<not> expanded fin 5
         \<and> getAttribute fin 2 ''aria-expanded'' = Some ''true''
         \<and> length (filter (expanded fin) (faqItems fin)) \<le> 1)
   \<and> (\<exists>fin. faqClick 4 faq_page = Completed fin
         \<and> \<not> expanded fin 1 \<and> \<not> expanded fin 3 \<and> \<not> expanded fin 5
         \<and> getAttribute fin 4 ''aria-expanded'' = Some ''false'')"
proof -
  have h1: "2 < length faq_page" by code_simp
  have h2: "parentOf faq_page 2 = Some 1" by code_simp
  have h3: "1 \<in> set (faqItems faq_page)" by code_simp
  have h4: "\<forall>item \<in> set (faqItems faq_page). item \<noteq> 1 \<longrightarrow> questionOf faq_page item \<noteq> None"
    by code_simp
  have h5: "faqItems faq_page = [1, 3, 5]" by code_simp
  have h6: "expanded faq_page 3" by code_simp
  have h7: "\<not> expanded faq_page 1" by code_simp
  have h8: "questionOf faq_page 1 = Some 2" "questionOf faq_page 3 = Some 4"
    "questionOf faq_page 5 = Some 6" by code_simp+
  have k1: "4 < length faq_page" by code_simp
  have k2: "parentOf faq_page 4 = Some 3" by code_simp
  have k3: "3 \<in> set (faqItems faq_page)" by code_simp
  have k4: "\<forall>item \<in> set (faqItems faq_page). item \<noteq> 3 \<longrightarrow> questionOf faq_page item \<noteq> None"
    by code_simp
  from faq_click_single_open [OF h1 h2 h3 h4]
  have first: "\<exists>fin. faqClick 2 faq_page = Completed fin
         \<and> expanded fin 1 \<and> \<not> expanded fin 3 \<and> \<not> expanded fin 5
         \<and> getAttribute fin 2 ''aria-expanded'' = Some ''true''
         \<and> length (filter (expanded fin) (faqItems fin)) \<le> 1"
  proof (elim exE conjE)
    fix mid fin
    assume run: "faqClick 2 faq_page = Completed fin"
      and flip: "expanded fin 1 = (\<not> expanded faq_page 1)"
      and aria: "getAttribute fin 2 ''aria-expanded'' = Some (String_bool (\<not> expanded faq_page 1))"
      and same: "faqItems fin = faqItems faq_page"
      and only: "\<forall>item \<in> set (faqItems fin). expanded fin item \<longrightarrow> item = 1 \<and> \<not> expanded faq_page 1"
      and one: "length (filter (expanded fin) (faqItems fin)) \<le> 1"
    have e1: "expanded fin 1" using flip h7 by simp
    have e3: "\<not> expanded fin 3" using only unfolding same h5 by simp
    have e5: "\<not> expanded fin 5" using only unfolding same h5 by simp
    have a2: "getAttribute fin 2 ''aria-expanded'' = Some ''true''"
      using aria h7 by (simp add: String_bool_def)
    show ?thesis
      by (rule exI [of _ fin]) (simp only: run e1 e3 e5 a2 one simp_thms)
  qed
  from faq_click_single_open [OF k1 k2 k3 k4]
  have second: "\<exists>fin. faqClick 4 faq_page = Completed fin
         \<and> \<not> expanded fin 1 \<and> \<not> expanded fin 3 \<and> \<not> expanded fin 5
         \<and> getAttribute fin 4 ''aria-expanded'' = Some ''false''"
  proof (elim exE conjE)
    fix mid fin
    assume run: "faqClick 4 faq_page = Completed fin"
      and aria: "getAttribute fin 4 ''aria-expanded'' = Some (String_bool (\<not> expanded faq_page 3))"
      and same: "faqItems fin = faqItems faq_page"
      and only: "\<forall>item \<in> set (faqItems fin). expanded fin item \<longrightarrow> item = 3 \<and> \<not> expanded faq_page 3"
    have e1: "\<not> expanded fin 1" using only unfolding same h5 by simp
    have e3: "\<not> expanded fin 3" using only h6 unfolding same h5 by simp
    have e5: "\<not> expanded fin 5" using only unfolding same h5 by simp
    have a4: "getAttribute fin 4 ''aria-expanded'' = Some ''false''"
      using aria h6 by (simp add: String_bool_def)
    show ?thesis
      by (rule exI [of _ fin]) (simp only: run e1 e3 e5 a4 simp_thms)
  qed
  show ?thesis
    by (intro conjI h1 h2 k1 k2 h5 h6 h7 h8 first second)
qed

text \<open>
  Claim C1 as stated fails on a page whose question sits inside a heading inside the
  item container: the listener takes the heading for the item. The click completes,
  the heading gets the marker, the item container, which was not expanded, is not
  expanded afterwards either, and \<^verbatim>\<open>aria-expanded\<close> of the question says \<^verbatim>\<open>true\<close>.
\<close>

theorem faq_click_marks_heading:
  "initFAQ faq_page_heading = [3] \<and> faqItems faq_page_heading = [1]
   \<and> contains faq_page_heading 1 3
   \<and> \<not> expanded faq_page_heading 1
   \<and> thrown (faqClick 3 faq_page_heading) = None
   \<and> \<not> expanded (state_of (faqClick 3 faq_page_heading)) 1
   \<and> expanded (state_of (faqClick 3 faq_page_heading)) 2
   \<and> getAttribute (state_of (faqClick 3 faq_page_heading)) 3 ''aria-expanded'' = Some ''true''"
  by code_simp

section \<open>Claims about the FAQ accordion, continued\<close>

text \<open>
  Claim C4. On a question, a keydown with the key \<^verbatim>\<open>Enter\<close> or the space key cancels
  the key's default action and leaves the document exactly as a pointer click on that
  question would, from any starting state: every item's marker and every
  \<^verbatim>\<open>aria-expanded\<close> attribute are the same.
\<close>

theorem keyboard_equals_click:
  "faqKeydown this ''Enter'' (prevented, doc) = (True, pointerClick this doc)
   \<and> faqKeydown this '' '' (prevented, doc) = (True, pointerClick this doc)
   \<and> expanded (snd (faqKeydown this ''Enter'' (prevented, doc))) item
        = expanded (pointerClick this doc) item
   \<and> expanded (snd (faqKeydown this '' '' (prevented, doc))) item
        = expanded (pointerClick this doc) item
   \<and> getAttribute (snd (faqKeydown this ''Enter'' (prevented, doc))) q ''aria-expanded''
        = getAttribute (pointerClick this doc) q ''aria-expanded''
   \<and> getAttribute (snd (faqKeydown this '' '' (prevented, doc))) q ''aria-expanded''
        = getAttribute (pointerClick this doc) q ''aria-expanded''"
  by (simp add: faqKeydown_def click_method_def pointerClick_def)

theorem keyboard_equals_click_witness:
  "fst (faqKeydown 2 ''Enter'' (False, faq_page))
   \<and> snd (faqKeydown 2 ''Enter'' (False, faq_page)) = pointerClick 2 faq_page
   \<and> expanded (pointerClick 2 faq_page) 1
   \<and> expanded (snd (faqKeydown 2 ''Enter'' (False, faq_page))) 1"
proof -
  have "expanded (pointerClick 2 faq_page) 1" by code_simp
  with keyboard_equals_click [of 2 False faq_page 1 2] show ?thesis by simp
qed

text \<open>
  Claim C5 says that no handler ever throws, and the loop over the FAQ items in
  particular. It does on a page with an item container that holds no element of class
  \<^verbatim>\<open>faq-question\<close>: the FAQ feature is started (there is a question), a click on that
  question reaches the bare item, removes its marker, finds no question in it and
  throws a TypeError; the clicked item is never toggled.
\<close>

theorem faq_click_throws_on_bare_item:
  "initFAQ faq_page_bare_item = [2]
   \<and> thrown (faqClick 2 faq_page_bare_item) = Some TypeError
   \<and> expanded faq_page_bare_item 3
   \<and> \<not> expanded (state_of (faqClick 2 faq_page_bare_item)) 3
   \<and> \<not> expanded (state_of (faqClick 2 faq_page_bare_item)) 1"
  by code_simp

section \<open>Claims about smooth scrolling, the header shadow and startup\<close>




text \<open>
  Claim C7 says that a click on a link whose \<^verbatim>\<open>href\<close> names a fragment with no
  matching element does nothing. The handler passes the \<^verbatim>\<open>href\<close> to
  \<^verbatim>\<open>document.querySelector\<close>, which reads \<^verbatim>\<open>#intro.overview\<close> as the \<^verbatim>\<open>id\<close>
  \<^verbatim>\<open>intro\<close> with the class \<^verbatim>\<open>overview\<close>. On a page with no element of \<^verbatim>\<open>id\<close>
  \<^verbatim>\<open>intro.overview\<close> and a section of that \<^verbatim>\<open>id\<close> and class, the click on the link
  suppresses the default, scrolls to the section, pushes the history and moves the
  focus.
\<close>

theorem anchor_click_dotted_href_scrolls:
  "initSmoothScroll dotted_doc = [1]
   \<and> getAttribute dotted_doc 1 ''href'' = Some ''#intro.overview''
   \<and> getElementById dotted_doc ''intro.overview'' = None
   \<and> thrown (anchorClick id_class_engine 1 (False, fresh_page dotted_doc)) = None
   \<and> fst (state_of (anchorClick id_class_engine 1 (False, fresh_page dotted_doc)))
   \<and> smoothScrollTo (snd (state_of (anchorClick id_class_engine 1 (False, fresh_page dotted_doc))))
        = Some 380
   \<and> history_entries (snd (state_of (anchorClick id_class_engine 1 (False, fresh_page dotted_doc))))
        = [''#intro.overview'']
   \<and> activeElement (snd (state_of (anchorClick id_class_engine 1 (False, fresh_page dotted_doc))))
        = Some 2"
  by code_simp



text \<open>
  Claim C9. On a page load the scroll reset runs exactly once and before every other
  initializer, on both paths: where the document is still loading, \<^verbatim>\<open>init\<close> calls
  nothing and the five calls are made when \<^verbatim>\<open>DOMContentLoaded\<close> fires; otherwise
  \<^verbatim>\<open>init\<close> makes them at once. The reset sets \<^verbatim>\<open>history.scrollRestoration\<close> to
  \<^verbatim>\<open>manual\<close> where the property exists and puts the viewport at (0, 0), and the
  initializers that follow leave both so.
\<close>

theorem scroll_reset_first_and_once:
  "(readyState st = ''loading'' \<longrightarrow>
      calls (init st) = calls st
      \<and> calls (fireDOMContentLoaded (init st)) =
          calls st @ [ScrollToTop, InitMobileMenu, InitFAQ, InitSmoothScroll, InitHeaderScroll])
   \<and> (readyState st \<noteq> ''loading'' \<longrightarrow>
      calls (init st) =
          calls st @ [ScrollToTop, InitMobileMenu, InitFAQ, InitSmoothScroll, InitHeaderScroll])
   \<and> calls (pageLoad st) =
        calls st @ [ScrollToTop, InitMobileMenu, InitFAQ, InitSmoothScroll, InitHeaderScroll]
   \<and> pageXOffset (scrollToTop st) = 0 \<and> pageYOffset (scrollToTop st) = 0
   \<and> history_scrollRestoration (scrollToTop st) =
       (case history_scrollRestoration st of None \<Rightarrow> None | Some r \<Rightarrow> Some ''manual'')
   \<and> pageXOffset (pageLoad st) = 0 \<and> pageYOffset (pageLoad st) = 0
   \<and> history_scrollRestoration (pageLoad st) =
       (case history_scrollRestoration st of None \<Rightarrow> None | Some r \<Rightarrow> Some ''manual'')"
  using scrollToTop_effect [of st]
  by (simp add: pageLoad_def init_def fireDOMContentLoaded_def Let_def calls_startAll
      startAll_effect)

theorem scroll_reset_first_and_once_witness:
  "calls (pageLoad (fresh_page menu_page)) =
     [ScrollToTop, InitMobileMenu, InitFAQ, InitSmoothScroll, InitHeaderScroll]
   \<and> calls (pageLoad ((fresh_page menu_page)\<lparr>readyState := ''loading''\<rparr>)) =
     [ScrollToTop, InitMobileMenu, InitFAQ, InitSmoothScroll, InitHeaderScroll]
   \<and> calls (init ((fresh_page menu_page)\<lparr>readyState := ''loading''\<rparr>)) = []
   \<and> count_list (calls (pageLoad (fresh_page menu_page))) ScrollToTop = 1
   \<and> count_list (calls (pageLoad ((fresh_page menu_page)\<lparr>readyState := ''loading''\<rparr>))) ScrollToTop = 1
   \<and> history_scrollRestoration (pageLoad (fresh_page menu_page)) = Some ''manual''"
proof -
  have a: "readyState (fresh_page menu_page) \<noteq> ''loading''"
    "calls (fresh_page menu_page) = []"
    "history_scrollRestoration (fresh_page menu_page) = Some ''auto''"
    by (simp_all add: fresh_page_def)
  have b: "readyState ((fresh_page menu_page)\<lparr>readyState := ''loading''\<rparr>) = ''loading''"
    "calls ((fresh_page menu_page)\<lparr>readyState := ''loading''\<rparr>) = []"
    by (simp_all add: fresh_page_def)
  from scroll_reset_first_and_once [of "fresh_page menu_page"]
    scroll_reset_first_and_once [of "(fresh_page menu_page)\<lparr>readyState := ''loading''\<rparr>"]
  show ?thesis
    unfolding a b by simp
qed

end
